theory Spec2Isabelle
  imports Complex_Main "HOL-Library.Log_Nat" "HOL-Library.Word"
begin

section \<open>JavaScript numbers\<close>

text \<open>
  Every number of the program is an IEEE 754 binary64 value. A value is NaN, one of the
  two infinities, or a finite real; the arithmetic operations compute the exact real
  result and round it to the nearest binary64 value, ties to even, with gradual
  underflow below \<open>2 powi (-1022)\<close> and overflow to an infinity from \<open>2 ^ 1024\<close> on.
  The sign of zero is not tracked: \<open>Fin 0\<close> stands for both zeros, and a division by
  zero takes the divisor as \<open>+0\<close>.
\<close>

datatype f64 = NaN | PInf | NInf | Fin real

definition rne :: "real \<Rightarrow> int" where
  \<comment> \<open>nearest integer, a tie going to the even neighbour\<close>
  "rne x = (let f = \<lfloor>x\<rfloor>; d = x - of_int f
            in if d < 1/2 then f else if 1/2 < d then f + 1
               else if even f then f else f + 1)"

definition e0 :: "real \<Rightarrow> int" where
  \<comment> \<open>the binary exponent of \<open>x\<close>: \<open>2 powi e0 x \<le> \<bar>x\<bar> < 2 powi (e0 x + 1)\<close>\<close>
  "e0 x = (if 1 \<le> \<bar>x\<bar> then bitlen \<lfloor>\<bar>x\<bar>\<rfloor> - 1 else - bitlen (\<lceil>1 / \<bar>x\<bar>\<rceil> - 1))"

definition expo :: "real \<Rightarrow> int" where
  \<comment> \<open>the exponent of the binade of \<open>x\<close>, not below that of the subnormal numbers\<close>
  "expo x = max (- 1022) (e0 x)"

definition overflow_threshold :: real where
  "overflow_threshold = 2 ^ 1024"

definition round64 :: "real \<Rightarrow> f64" where
  \<comment> \<open>53 significant bits: the spacing of the binade is \<open>2 powi (expo x - 52)\<close>\<close>
  "round64 x = (let q = 2 powi (expo x - 52); y = of_int (rne (x / q)) * q
                in if overflow_threshold \<le> y then PInf
                   else if y \<le> - overflow_threshold then NInf else Fin y)"

definition lit :: "real \<Rightarrow> f64" where
  \<comment> \<open>a decimal literal of the source text denotes the nearest binary64 value\<close>
  "lit r = round64 r"

fun isneg :: "f64 \<Rightarrow> bool" where
  "isneg NInf = True"
| "isneg (Fin x) = (x < 0)"
| "isneg _ = False"

fun fneg :: "f64 \<Rightarrow> f64" where
  "fneg NaN = NaN"
| "fneg PInf = NInf"
| "fneg NInf = PInf"
| "fneg (Fin x) = Fin (- x)"

fun fadd :: "f64 \<Rightarrow> f64 \<Rightarrow> f64" where
  "fadd NaN _ = NaN"
| "fadd _ NaN = NaN"
| "fadd PInf NInf = NaN"
| "fadd NInf PInf = NaN"
| "fadd PInf _ = PInf"
| "fadd _ PInf = PInf"
| "fadd NInf _ = NInf"
| "fadd _ NInf = NInf"
| "fadd (Fin x) (Fin y) = round64 (x + y)"

definition fsub :: "f64 \<Rightarrow> f64 \<Rightarrow> f64" where
  "fsub x y = fadd x (fneg y)"

fun fmul :: "f64 \<Rightarrow> f64 \<Rightarrow> f64" where
  "fmul NaN _ = NaN"
| "fmul _ NaN = NaN"
| "fmul (Fin x) (Fin y) = round64 (x * y)"
| "fmul x y = (if x = Fin 0 \<or> y = Fin 0 then NaN
               else if isneg x = isneg y then PInf else NInf)"

fun fdiv :: "f64 \<Rightarrow> f64 \<Rightarrow> f64" where
  "fdiv NaN _ = NaN"
| "fdiv _ NaN = NaN"
| "fdiv (Fin x) (Fin y) =
     (if y = 0 then (if x = 0 then NaN else if 0 < x then PInf else NInf)
      else round64 (x / y))"
| "fdiv (Fin x) _ = Fin 0"
| "fdiv x (Fin y) = (if isneg x = (y < 0) then PInf else NInf)"
| "fdiv _ _ = NaN"

fun flt :: "f64 \<Rightarrow> f64 \<Rightarrow> bool" where
  "flt NaN _ = False"
| "flt _ NaN = False"
| "flt PInf _ = False"
| "flt _ NInf = False"
| "flt NInf _ = True"
| "flt _ PInf = True"
| "flt (Fin x) (Fin y) = (x < y)"

fun fle :: "f64 \<Rightarrow> f64 \<Rightarrow> bool" where
  "fle NaN _ = False"
| "fle _ NaN = False"
| "fle NInf _ = True"
| "fle _ PInf = True"
| "fle PInf _ = False"
| "fle _ NInf = False"
| "fle (Fin x) (Fin y) = (x \<le> y)"

definition fgt :: "f64 \<Rightarrow> f64 \<Rightarrow> bool" where
  "fgt x y = flt y x"

definition fge :: "f64 \<Rightarrow> f64 \<Rightarrow> bool" where
  "fge x y = fle y x"

definition truthy :: "f64 \<Rightarrow> bool" where
  \<comment> \<open>ToBoolean of a number: false for NaN and for zero\<close>
  "truthy x = (x \<noteq> NaN \<and> x \<noteq> Fin 0)"

subsection \<open>The functions of \<open>Math\<close>\<close>

definition Math_max :: "f64 \<Rightarrow> f64 \<Rightarrow> f64" where
  "Math_max x y = (if x = NaN \<or> y = NaN then NaN else if flt x y then y else x)"

definition Math_min :: "f64 \<Rightarrow> f64 \<Rightarrow> f64" where
  "Math_min x y = (if x = NaN \<or> y = NaN then NaN else if flt y x then y else x)"

fun Math_round :: "f64 \<Rightarrow> f64" where
  \<comment> \<open>the nearest integer, a tie going up\<close>
  "Math_round (Fin x) = Fin (of_int \<lfloor>x + 1/2\<rfloor>)"
| "Math_round x = x"

fun Math_sqrt :: "f64 \<Rightarrow> f64" where
  "Math_sqrt (Fin x) = (if x < 0 then NaN else round64 (sqrt x))"
| "Math_sqrt PInf = PInf"
| "Math_sqrt _ = NaN"

text \<open>
  ECMAScript leaves the accuracy of \<open>Math.pow\<close> and \<open>Math.cbrt\<close> to the
  implementation. They are taken as correctly rounded; their results on NaN, zero and
  the infinities are the ones the language fixes.
\<close>

fun Math_cbrt :: "f64 \<Rightarrow> f64" where
  "Math_cbrt (Fin x) = round64 (root 3 x)"
| "Math_cbrt x = x"

definition is_int :: "real \<Rightarrow> bool" where
  "is_int e = (of_int \<lfloor>e\<rfloor> = e)"

fun Math_pow :: "f64 \<Rightarrow> f64 \<Rightarrow> f64" where
  "Math_pow _ NaN = NaN"
| "Math_pow b (Fin e) =
     (if e = 0 then Fin 1
      else (case b of
              NaN \<Rightarrow> NaN
            | PInf \<Rightarrow> if 0 < e then PInf else Fin 0
            | NInf \<Rightarrow> if 0 < e then (if is_int e \<and> odd \<lfloor>e\<rfloor> then NInf else PInf) else Fin 0
            | Fin x \<Rightarrow>
                if x = 0 then (if 0 < e then Fin 0 else PInf)
                else if is_int e then round64 (x powi \<lfloor>e\<rfloor>)
                else if 0 < x then round64 (x powr e)
                else NaN))"
| "Math_pow b PInf =
     (case b of
        NaN \<Rightarrow> NaN
      | Fin x \<Rightarrow> if 1 < \<bar>x\<bar> then PInf else if \<bar>x\<bar> = 1 then NaN else Fin 0
      | _ \<Rightarrow> PInf)"
| "Math_pow b NInf =
     (case b of
        NaN \<Rightarrow> NaN
      | Fin x \<Rightarrow> if 1 < \<bar>x\<bar> then Fin 0 else if \<bar>x\<bar> = 1 then NaN else PInf
      | _ \<Rightarrow> Fin 0)"

subsection \<open>Predicates on numbers\<close>


definition bnd :: "int \<Rightarrow> f64 \<Rightarrow> bool" where
  \<comment> \<open>finite, of magnitude at most \<open>2 powi k\<close>\<close>
  "bnd k v = (case v of Fin y \<Rightarrow> \<bar>y\<bar> \<le> 2 powi k | _ \<Rightarrow> False)"

definition huge :: "f64 \<Rightarrow> bool" where
  \<comment> \<open>plus infinity, or finite and at least \<open>2 powi 1016\<close>\<close>
  "huge v = (case v of PInf \<Rightarrow> True | Fin y \<Rightarrow> 2 powi 1016 \<le> y | _ \<Rightarrow> False)"

subsection \<open>Pixel data\<close>

text \<open>
  \<open>imageData.data\<close> is a \<open>Uint8ClampedArray\<close>: a read beyond the end gives
  \<open>undefined\<close>, which is NaN in arithmetic; a write beyond the end is ignored; a
  stored number is clamped to \<open>0..255\<close> and rounded, ties to even, NaN becoming 0.
\<close>

type_synonym byte = "8 word"

definition rd :: "byte list \<Rightarrow> nat \<Rightarrow> f64" where
  "rd data i = (if i < length data then Fin (real (unat (data ! i))) else NaN)"

fun toUint8Clamp :: "f64 \<Rightarrow> byte" where
  "toUint8Clamp NaN = 0"
| "toUint8Clamp PInf = 255"
| "toUint8Clamp NInf = 0"
| "toUint8Clamp (Fin x) = (if x \<le> 0 then 0 else if 255 \<le> x then 255 else word_of_int (rne x))"

definition wr :: "byte list \<Rightarrow> nat \<Rightarrow> f64 \<Rightarrow> byte list" where
  "wr data i v = data[i := toUint8Clamp v]"

section \<open>color.js\<close>

record lab =
  lab_L :: f64
  lab_a :: f64
  lab_b :: f64

record rgb =
  rgb_r :: f64
  rgb_g :: f64
  rgb_b :: f64

record stats =
  mean :: lab
  std :: lab

definition D65_x :: f64 where "D65_x = lit (95047 / 100000)"
definition D65_y :: f64 where "D65_y = Fin 1"
definition D65_z :: f64 where "D65_z = lit (108883 / 100000)"

definition clamp :: "f64 \<Rightarrow> f64 \<Rightarrow> f64 \<Rightarrow> f64" where
  "clamp val mn mx = Math_min mx (Math_max mn val)"

definition srgbToLinear :: "f64 \<Rightarrow> f64" where
  "srgbToLinear val =
     (if fle val (lit (4045 / 100000)) then fdiv val (lit (1292 / 100))
      else Math_pow (fdiv (fadd val (lit (55 / 1000))) (lit (1055 / 1000))) (lit (24 / 10)))"

definition linearToSrgb :: "f64 \<Rightarrow> f64" where
  "linearToSrgb val =
     (if fle val (lit (31308 / 10000000)) then fmul (lit (1292 / 100)) val
      else fsub (fmul (lit (1055 / 1000)) (Math_pow val (fdiv (Fin 1) (lit (24 / 10)))))
                (lit (55 / 1000)))"

definition labPivot :: "f64 \<Rightarrow> f64" where
  "labPivot val =
     (if fgt val (lit (8856 / 1000000)) then Math_cbrt val
      else fadd (fmul (lit (7787 / 1000)) val) (fdiv (Fin 16) (Fin 116)))"

definition labPivotInv :: "f64 \<Rightarrow> f64" where
  "labPivotInv val =
     (let cube = Math_pow val (Fin 3)
      in if fgt cube (lit (8856 / 1000000)) then cube
         else fdiv (fsub val (fdiv (Fin 16) (Fin 116))) (lit (7787 / 1000)))"

definition rgbToLab :: "f64 \<Rightarrow> f64 \<Rightarrow> f64 \<Rightarrow> lab" where
  "rgbToLab r g b =
     (let rn = srgbToLinear (fdiv r (Fin 255));
          gn = srgbToLinear (fdiv g (Fin 255));
          bn = srgbToLinear (fdiv b (Fin 255));
          x = fadd (fadd (fmul rn (lit (4124564 / 10000000))) (fmul gn (lit (3575761 / 10000000))))
                   (fmul bn (lit (1804375 / 10000000)));
          y = fadd (fadd (fmul rn (lit (2126729 / 10000000))) (fmul gn (lit (7151522 / 10000000))))
                   (fmul bn (lit (721750 / 10000000)));
          z = fadd (fadd (fmul rn (lit (193339 / 10000000))) (fmul gn (lit (1191920 / 10000000))))
                   (fmul bn (lit (9503041 / 10000000)));
          fx = labPivot (fdiv x D65_x);
          fy = labPivot (fdiv y D65_y);
          fz = labPivot (fdiv z D65_z)
      in \<lparr>lab_L = fsub (fmul (Fin 116) fy) (Fin 16),
          lab_a = fmul (Fin 500) (fsub fx fy),
          lab_b = fmul (Fin 200) (fsub fy fz)\<rparr>)"

definition labToRgb :: "f64 \<Rightarrow> f64 \<Rightarrow> f64 \<Rightarrow> rgb" where
  "labToRgb l a b =
     (let fy = fdiv (fadd l (Fin 16)) (Fin 116);
          fx = fadd (fdiv a (Fin 500)) fy;
          fz = fsub fy (fdiv b (Fin 200));
          xr = labPivotInv fx;
          yr = labPivotInv fy;
          zr = labPivotInv fz;
          x = fmul xr D65_x;
          y = fmul yr D65_y;
          z = fmul zr D65_z;
          r = fadd (fadd (fmul x (lit (32404542 / 10000000)))
                         (fmul y (fneg (lit (15371385 / 10000000)))))
                   (fmul z (fneg (lit (4985314 / 10000000))));
          g = fadd (fadd (fmul x (fneg (lit (9692660 / 10000000))))
                         (fmul y (lit (18760108 / 10000000))))
                   (fmul z (lit (415560 / 10000000)));
          bVal = fadd (fadd (fmul x (lit (556434 / 10000000)))
                            (fmul y (fneg (lit (2040259 / 10000000)))))
                      (fmul z (lit (10572252 / 10000000)));
          r' = linearToSrgb r;
          g' = linearToSrgb g;
          bVal' = linearToSrgb bVal
      in \<lparr>rgb_r = clamp (Math_round (fmul r' (Fin 255))) (Fin 0) (Fin 255),
          rgb_g = clamp (Math_round (fmul g' (Fin 255))) (Fin 0) (Fin 255),
          rgb_b = clamp (Math_round (fmul bVal' (Fin 255))) (Fin 0) (Fin 255)\<rparr>)"

definition clampLab :: "lab \<Rightarrow> lab" where
  "clampLab c = \<lparr>lab_L = clamp (lab_L c) (Fin 0) (Fin 100),
                 lab_a = clamp (lab_a c) (fneg (Fin 128)) (Fin 127),
                 lab_b = clamp (lab_b c) (fneg (Fin 128)) (Fin 127)\<rparr>"

definition blend :: "f64 \<Rightarrow> f64 \<Rightarrow> f64 \<Rightarrow> f64" where
  "blend base target amount = Math_round (fadd base (fmul (fsub target base) amount))"

record accum =
  count :: f64
  sumL :: f64
  sumA :: f64
  sumB :: f64
  sumL2 :: f64
  sumA2 :: f64
  sumB2 :: f64

definition sums0 :: accum where
  "sums0 = \<lparr>count = Fin 0, sumL = Fin 0, sumA = Fin 0, sumB = Fin 0,
             sumL2 = Fin 0, sumA2 = Fin 0, sumB2 = Fin 0\<rparr>"

definition accumulate :: "accum \<Rightarrow> lab \<Rightarrow> accum" where
  \<comment> \<open>the body of the sampling loop, after the conversion of the pixel\<close>
  "accumulate s c =
     \<lparr>count = fadd (count s) (Fin 1),
      sumL = fadd (sumL s) (lab_L c),
      sumA = fadd (sumA s) (lab_a c),
      sumB = fadd (sumB s) (lab_b c),
      sumL2 = fadd (sumL2 s) (fmul (lab_L c) (lab_L c)),
      sumA2 = fadd (sumA2 s) (fmul (lab_a c) (lab_a c)),
      sumB2 = fadd (sumB2 s) (fmul (lab_b c) (lab_b c))\<rparr>"

definition stride_of :: "int \<Rightarrow> nat" where
  \<comment> \<open>\<open>Math.max(1, sampleStep) * 4\<close>, for an integer \<open>sampleStep\<close>\<close>
  "stride_of sampleStep = nat (max 1 sampleStep) * 4"

function sample :: "byte list \<Rightarrow> int \<Rightarrow> nat \<Rightarrow> accum \<Rightarrow> accum" where
  "sample data sampleStep i s =
     (if i < length data
      then sample data sampleStep (i + stride_of sampleStep)
             (accumulate s (rgbToLab (rd data i) (rd data (i + 1)) (rd data (i + 2))))
      else s)"
  by pat_completeness auto
termination
  by (relation "measure (\<lambda>(data, sampleStep, i, s). length data - i)")
     (auto simp: stride_of_def)

declare sample.simps [simp del]

definition orElse :: "f64 \<Rightarrow> f64 \<Rightarrow> f64" where
  \<comment> \<open>\<open>x || y\<close> on numbers\<close>
  "orElse x y = (if truthy x then x else y)"

text \<open>
  The source defines no error condition and has no \<open>throw\<close>: the two names below are
  the ones the specification uses. The operations return a sum so that their outcome,
  a result or a failure, is part of the value.
\<close>

datatype failure = EmptyInput | InvalidConfiguration

definition computeLabStats :: "byte list \<Rightarrow> int \<Rightarrow> failure + stats" where
  "computeLabStats data sampleStep =
     (let s = sample data sampleStep 0 sums0;
          meanL = fdiv (sumL s) (count s);
          meanA = fdiv (sumA s) (count s);
          meanB = fdiv (sumB s) (count s);
          varL = Math_max (Fin 0) (fsub (fdiv (sumL2 s) (count s)) (fmul meanL meanL));
          varA = Math_max (Fin 0) (fsub (fdiv (sumA2 s) (count s)) (fmul meanA meanA));
          varB = Math_max (Fin 0) (fsub (fdiv (sumB2 s) (count s)) (fmul meanB meanB))
      in Inr \<lparr>mean = \<lparr>lab_L = meanL, lab_a = meanA, lab_b = meanB\<rparr>,
              std = \<lparr>lab_L = orElse (Math_sqrt varL) (lit (1 / 1000000)),
                     lab_a = orElse (Math_sqrt varA) (lit (1 / 1000000)),
                     lab_b = orElse (Math_sqrt varB) (lit (1 / 1000000))\<rparr>\<rparr>)"

section \<open>transfer.js\<close>

definition transferLab :: "string \<Rightarrow> stats \<Rightarrow> stats \<Rightarrow> lab \<Rightarrow> lab" where
  \<comment> \<open>the two mode branches of the pixel loop of \<open>applyReinhardTransfer\<close>\<close>
  "transferLab mode referenceStats targetStats c =
     (let refMean = mean referenceStats; refStd = std referenceStats;
          tgtMean = mean targetStats; tgtStd = std targetStats;
          l = (if mode = ''full'' \<or> mode = ''luminance''
               then fadd (fmul (fsub (lab_L c) (lab_L tgtMean))
                               (fdiv (lab_L refStd) (lab_L tgtStd))) (lab_L refMean)
               else lab_L c);
          a = (if mode = ''full'' \<or> mode = ''chromatic''
               then fadd (fmul (fsub (lab_a c) (lab_a tgtMean))
                               (fdiv (lab_a refStd) (lab_a tgtStd))) (lab_a refMean)
               else lab_a c);
          bLab = (if mode = ''full'' \<or> mode = ''chromatic''
                  then fadd (fmul (fsub (lab_b c) (lab_b tgtMean))
                                  (fdiv (lab_b refStd) (lab_b tgtStd))) (lab_b refMean)
                  else lab_b c)
      in \<lparr>lab_L = l, lab_a = a, lab_b = bLab\<rparr>)"

definition writeBack :: "byte list \<Rightarrow> nat \<Rightarrow> lab \<Rightarrow> f64 \<Rightarrow> byte list" where
  \<comment> \<open>the tail of both pixel loops: clamp, convert, blend with the bytes read, store\<close>
  "writeBack data i c strength =
     (let r = rd data i; g = rd data (i + 1); b = rd data (i + 2);
          clamped = clampLab c;
          out = labToRgb (lab_L clamped) (lab_a clamped) (lab_b clamped)
      in wr (wr (wr data i (blend r (rgb_r out) strength))
                (i + 1) (blend g (rgb_g out) strength))
            (i + 2) (blend b (rgb_b out) strength))"


definition transferPixel :: "byte list \<Rightarrow> nat \<Rightarrow> stats \<Rightarrow> stats \<Rightarrow> f64 \<Rightarrow> string \<Rightarrow> byte list" where
  "transferPixel data i referenceStats targetStats strength mode =
     writeBack data i
       (transferLab mode referenceStats targetStats
          (rgbToLab (rd data i) (rd data (i + 1)) (rd data (i + 2))))
       strength"



lemma length_wr [simp]: "length (wr data i v) = length data"
  by (simp add: wr_def)

lemma length_writeBack [simp]: "length (writeBack data i c strength) = length data"
  by (simp add: writeBack_def Let_def)

lemma length_transferPixel [simp]:
  "length (transferPixel data i referenceStats targetStats strength mode) = length data"
  by (simp add: transferPixel_def)




record shift =
  shift_L :: "f64 option"
  shift_a :: "f64 option"
  shift_b :: "f64 option"

definition nullish :: "f64 option \<Rightarrow> f64 \<Rightarrow> f64" where
  \<comment> \<open>\<open>x ?? y\<close>: \<open>None\<close> is \<open>null\<close> or \<open>undefined\<close>\<close>
  "nullish x y = (case x of None \<Rightarrow> y | Some v \<Rightarrow> v)"

definition shiftPixel :: "byte list \<Rightarrow> nat \<Rightarrow> f64 \<Rightarrow> f64 \<Rightarrow> f64 \<Rightarrow> f64 \<Rightarrow> byte list" where
  "shiftPixel data i shiftL shiftA shiftB strength =
     (let c = rgbToLab (rd data i) (rd data (i + 1)) (rd data (i + 2))
      in writeBack data i
           \<lparr>lab_L = fadd (lab_L c) shiftL, lab_a = fadd (lab_a c) shiftA,
            lab_b = fadd (lab_b c) shiftB\<rparr>
           strength)"

lemma length_shiftPixel [simp]:
  "length (shiftPixel data i shiftL shiftA shiftB strength) = length data"
  by (simp add: shiftPixel_def Let_def)

function shiftLoop :: "byte list \<Rightarrow> nat \<Rightarrow> f64 \<Rightarrow> f64 \<Rightarrow> f64 \<Rightarrow> f64 \<Rightarrow> byte list" where
  "shiftLoop data i shiftL shiftA shiftB strength =
     (if i < length data
      then shiftLoop (shiftPixel data i shiftL shiftA shiftB strength) (i + 4)
             shiftL shiftA shiftB strength
      else data)"
  by pat_completeness auto
termination
  by (relation "measure (\<lambda>(data, i, shiftL, shiftA, shiftB, strength). length data - i)") auto

declare shiftLoop.simps [simp del]

definition applyLabShift :: "byte list \<Rightarrow> shift option \<Rightarrow> f64 \<Rightarrow> failure + byte list" where
  "applyLabShift data sh strength =
     (case sh of
        None \<Rightarrow> Inr data
      | Some s \<Rightarrow>
          (let shiftL = nullish (shift_L s) (Fin 0);
               shiftA = nullish (shift_a s) (Fin 0);
               shiftB = nullish (shift_b s) (Fin 0)
           in if shiftL = Fin 0 \<and> shiftA = Fin 0 \<and> shiftB = Fin 0 then Inr data
              else Inr (shiftLoop data 0 shiftL shiftA shiftB strength)))"

section \<open>App.jsx\<close>

text \<open>
  \<open>computeRecoveryShift\<close> and \<open>confidence\<close> close over component state; the state
  they read is passed as arguments.
\<close>

definition computeRecoveryShift :: "bool \<Rightarrow> bool \<Rightarrow> lab \<Rightarrow> stats \<Rightarrow> lab" where
  "computeRecoveryShift recoveryAutoExposure recoveryAutoWB recoveryTarget st =
     (let s0 = \<lparr>lab_L = Fin 0, lab_a = Fin 0, lab_b = Fin 0\<rparr>;
          s1 = (if recoveryAutoExposure
                then s0\<lparr>lab_L := fsub (lab_L recoveryTarget) (lab_L (mean st))\<rparr> else s0);
          s2 = (if recoveryAutoWB
                then s1\<lparr>lab_a := fsub (lab_a recoveryTarget) (lab_a (mean st)),
                        lab_b := fsub (lab_b recoveryTarget) (lab_b (mean st))\<rparr>
                else s1)
      in s2)"

datatype label = High | Mid | Low

record confidence_record =
  score :: f64
  label :: label

definition orString :: "string option \<Rightarrow> string option \<Rightarrow> string option" where
  \<comment> \<open>\<open>x || y\<close> on optional strings: \<open>None\<close> and the empty string are falsy\<close>
  "orString x y = (if x = None \<or> x = Some [] then y else x)"

definition confidence ::
  "f64 option \<Rightarrow> bool \<Rightarrow> bool \<Rightarrow> string option \<Rightarrow> string option \<Rightarrow> confidence_record" where
  \<comment> \<open>the labels are the strings U+9AD8, U+4E2D and U+4F4E of the source\<close>
  "confidence qualityScore recoveryAvailable recoveryEnabled chartRisk environmentRisk =
     (let score0 = (case qualityScore of
                      Some q \<Rightarrow> q
                    | None \<Rightarrow> if recoveryAvailable
                              then (if recoveryEnabled then Fin 55 else Fin 35)
                              else Fin 40);
          risk = orString chartRisk environmentRisk;
          score1 = (if risk = Some ''high'' then fsub score0 (Fin 15) else score0);
          score2 = (if risk = Some ''medium'' then fsub score1 (Fin 7) else score1);
          score3 = Math_max (Fin 0) (Math_min (Fin 100) score2)
      in \<lparr>score = score3,
          label = (if fge score3 (Fin 70) then High
                   else if fge score3 (Fin 50) then Mid else Low)\<rparr>)"

section \<open>Facts about rounding\<close>

lemma expo_e0: "expo x = max (- 1022) (e0 x)"
  by (simp add: expo_def)

lemma powi_nat: "0 \<le> k \<Longrightarrow> (2::real) powi k = 2 ^ nat k"
  by (simp add: power_int_def)

lemma e0_bounds_ge1:
  assumes "1 \<le> \<bar>x\<bar>"
  shows "2 powi (e0 x) \<le> \<bar>x\<bar> \<and> \<bar>x\<bar> < 2 powi (e0 x + 1)"
proof -
  let ?n = "\<lfloor>\<bar>x\<bar>\<rfloor>"
  have n: "0 < ?n" using assms by simp
  have b1: "1 \<le> bitlen ?n" using n by (auto simp: bitlen_alt_def)
  from bitlen_bounds[OF n] have lo: "2 ^ nat (bitlen ?n - 1) \<le> ?n" and hi: "?n < 2 ^ nat (bitlen ?n)"
    by auto
  have e: "e0 x = bitlen ?n - 1" using assms by (simp add: e0_def)
  have "(2::real) powi (e0 x) = 2 ^ nat (bitlen ?n - 1)"
    using b1 by (simp add: e power_int_def)
  also have "\<dots> = of_int (2 ^ nat (bitlen ?n - 1))" by simp
  also have "\<dots> \<le> of_int ?n" using lo by (simp only: of_int_le_iff)
  also have "\<dots> \<le> \<bar>x\<bar>" by simp
  finally have L: "2 powi (e0 x) \<le> \<bar>x\<bar>" .
  have "?n + 1 \<le> 2 ^ nat (bitlen ?n)" using hi by simp
  then have "of_int (?n + 1) \<le> (of_int (2 ^ nat (bitlen ?n)) :: real)" by (simp only: of_int_le_iff)
  then have B: "of_int ?n + 1 \<le> (2::real) ^ nat (bitlen ?n)" by simp
  have A: "\<bar>x\<bar> < of_int ?n + 1" by linarith
  have "\<bar>x\<bar> < 2 ^ nat (bitlen ?n)" using A B by linarith
  also have "\<dots> = 2 powi (e0 x + 1)" using b1 by (simp add: e power_int_def)
  finally show ?thesis using L by simp
qed

lemma e0_bounds_lt1:
  assumes "\<bar>x\<bar> < 1" "x \<noteq> 0"
  shows "2 powi (e0 x) \<le> \<bar>x\<bar> \<and> \<bar>x\<bar> < 2 powi (e0 x + 1)"
proof -
  let ?y = "1 / \<bar>x\<bar>"
  let ?m = "\<lceil>?y\<rceil> - 1"
  have y1: "1 < ?y" using assms by simp
  have m: "0 < ?m" using y1 by linarith
  have my: "of_int ?m < ?y" "?y \<le> of_int ?m + 1" by linarith+
  have b1: "1 \<le> bitlen ?m" using m by (auto simp: bitlen_alt_def)
  from bitlen_bounds[OF m] have lo: "2 ^ nat (bitlen ?m - 1) \<le> ?m" and hi: "?m < 2 ^ nat (bitlen ?m)"
    by auto
  have e: "e0 x = - bitlen ?m" using assms by (simp add: e0_def)
  have "?m + 1 \<le> 2 ^ nat (bitlen ?m)" using hi by simp
  then have "of_int (?m + 1) \<le> (of_int (2 ^ nat (bitlen ?m)) :: real)" by (simp only: of_int_le_iff)
  then have B: "of_int ?m + 1 \<le> (2::real) ^ nat (bitlen ?m)" by simp
  have yhi: "?y \<le> 2 ^ nat (bitlen ?m)" using my(2) B by linarith
  have "(of_int (2 ^ nat (bitlen ?m - 1)) :: real) \<le> of_int ?m" using lo by (simp only: of_int_le_iff)
  then have C: "(2::real) ^ nat (bitlen ?m - 1) \<le> of_int ?m" by simp
  have ylo: "2 ^ nat (bitlen ?m - 1) < ?y" using my(1) C by linarith
  have xpos: "0 < \<bar>x\<bar>" using assms by simp
  have p1: "1 \<le> 2 ^ nat (bitlen ?m) * \<bar>x\<bar>" using yhi xpos by (simp add: field_simps)
  have p2: "2 ^ nat (bitlen ?m - 1) * \<bar>x\<bar> < 1" using ylo xpos by (simp add: field_simps)
  have pw1: "(2::real) powi (e0 x) = inverse (2 ^ nat (bitlen ?m))"
    using b1 by (simp add: e power_int_minus powi_nat)
  have "e0 x + 1 = - (bitlen ?m - 1)" by (simp add: e)
  then have pw2: "(2::real) powi (e0 x + 1) = inverse (2 ^ nat (bitlen ?m - 1))"
    using b1 by (simp only: power_int_minus powi_nat)
  have L: "2 powi (e0 x) \<le> \<bar>x\<bar>"
    unfolding pw1 using p1 by (simp add: field_simps)
  have U: "\<bar>x\<bar> < 2 powi (e0 x + 1)"
    unfolding pw2 using p2 by (simp add: field_simps)
  show ?thesis using L U by simp
qed

lemma e0_bounds: "x \<noteq> 0 \<Longrightarrow> 2 powi (e0 x) \<le> \<bar>x\<bar> \<and> \<bar>x\<bar> < 2 powi (e0 x + 1)"
  using e0_bounds_ge1 e0_bounds_lt1 by (cases "1 \<le> \<bar>x\<bar>") auto


lemma rne_cases: "rne x = \<lfloor>x\<rfloor> \<or> (rne x = \<lfloor>x\<rfloor> + 1 \<and> of_int \<lfloor>x\<rfloor> < x)"
  by (auto simp: rne_def Let_def)

lemma rne_le: "x \<le> of_int n \<Longrightarrow> rne x \<le> n"
  using rne_cases[of x] by (auto simp: floor_le_iff)

lemma rne_ge: "of_int n \<le> x \<Longrightarrow> n \<le> rne x"
proof -
  assume "of_int n \<le> x"
  then have "n \<le> \<lfloor>x\<rfloor>" by (simp add: le_floor_iff)
  then show ?thesis using rne_cases[of x] by auto
qed

lemma rne_abs_le: "\<bar>x\<bar> \<le> of_int n \<Longrightarrow> \<bar>rne x\<bar> \<le> n"
proof -
  assume a: "\<bar>x\<bar> \<le> of_int n"
  then have "x \<le> of_int n" "of_int (- n) \<le> x" by auto
  then have "rne x \<le> n" "- n \<le> rne x" using rne_le rne_ge by blast+
  then show ?thesis by simp
qed

lemma overflow_threshold_pos: "0 < overflow_threshold"
  by (simp add: overflow_threshold_def)

lemma round64_0 [simp]: "round64 0 = Fin 0"
  using overflow_threshold_pos by (simp add: round64_def rne_def)

lemma powi_le_iff: "(2::real) powi a \<le> 2 powi b \<longleftrightarrow> a \<le> b"
proof
  assume h: "(2::real) powi a \<le> 2 powi b"
  show "a \<le> b"
  proof (rule ccontr)
    assume "\<not> a \<le> b"
    then have "(2::real) powi b < 2 powi a" by (intro power_int_strict_increasing) auto
    then show False using h by simp
  qed
next
  assume "a \<le> b"
  then show "(2::real) powi a \<le> 2 powi b" by (intro power_int_increasing) auto
qed

lemma powi_less_iff: "(2::real) powi a < 2 powi b \<longleftrightarrow> a < b"
  using powi_le_iff[of b a] by (auto simp: not_le[symmetric])

lemma powi_diff: "(2::real) powi a / 2 powi b = 2 powi (a - b)"
  by (simp add: power_int_diff)

lemma powi_add: "(2::real) powi a * 2 powi b = 2 powi (a + b)"
  by (simp add: power_int_add)


lemma expo_le:
  assumes "x \<noteq> 0" "\<bar>x\<bar> \<le> 2 powi k" "- 1022 \<le> k"
  shows "expo x \<le> k"
proof -
  have "(2::real) powi (e0 x) \<le> 2 powi k" using e0_bounds[OF assms(1)] assms(2) by linarith
  then have "e0 x \<le> k" by (simp add: powi_le_iff)
  then show ?thesis using assms(3) by (simp add: expo_e0)
qed






lemma round64_cases:
  "round64 x = Fin y \<Longrightarrow>
     y = of_int (rne (x / 2 powi (expo x - 52))) * 2 powi (expo x - 52) \<and> \<bar>y\<bar> < overflow_threshold"
  by (auto simp: round64_def Let_def split: if_splits)



lemma overflow_threshold_powi: "overflow_threshold = 2 powi 1024"
  by (simp only: overflow_threshold_def power_int_numeral)

lemma round64_bound:
  assumes x: "\<bar>x\<bar> \<le> 2 powi k" and k: "- 1022 \<le> k" "k \<le> 1023"
  shows "\<exists>y. round64 x = Fin y \<and> \<bar>y\<bar> \<le> 2 powi k"
proof (cases "x = 0")
  case True
  then show ?thesis by simp
next
  case False
  let ?E = "expo x"
  let ?q = "2 powi (?E - 52) :: real"
  let ?m = "rne (x / ?q)"
  let ?N = "2 ^ nat (k - ?E + 52) :: int"
  have E: "?E \<le> k" using expo_le[OF False x k(1)] .
  have "\<bar>x / ?q\<bar> = \<bar>x\<bar> / ?q" by simp
  also have "\<dots> \<le> 2 powi k / ?q" using x by (intro divide_right_mono) auto
  also have "\<dots> = 2 powi (k - ?E + 52)" by (simp only: powi_diff) (simp add: algebra_simps)
  also have "\<dots> = 2 ^ nat (k - ?E + 52)" using E by (simp add: powi_nat)
  also have "\<dots> = of_int ?N" by simp
  finally have "\<bar>?m\<bar> \<le> ?N" by (rule rne_abs_le)
  then have "(of_int \<bar>?m\<bar> :: real) \<le> of_int ?N" by (simp only: of_int_le_iff)
  then have "of_int \<bar>?m\<bar> * ?q \<le> of_int ?N * ?q" by (intro mult_right_mono) simp_all
  also have "of_int ?N * ?q = 2 powi (k - ?E + 52) * ?q" using E by (simp add: powi_nat)
  also have "\<dots> = 2 powi k" by (simp only: powi_add) (simp add: algebra_simps)
  finally have yb: "\<bar>of_int ?m * ?q\<bar> \<le> 2 powi k" by (simp add: abs_mult)
  have "k < 1024" using k by simp
  then have "(2::real) powi k < 2 powi 1024" by (simp only: powi_less_iff)
  then have "\<bar>of_int ?m * ?q\<bar> < overflow_threshold"
    using yb by (simp only: overflow_threshold_powi)
  then have "\<not> overflow_threshold \<le> of_int ?m * ?q" "\<not> of_int ?m * ?q \<le> - overflow_threshold"
    by linarith+
  then have "round64 x = Fin (of_int ?m * ?q)" by (simp add: round64_def Let_def)
  then show ?thesis using yb by blast
qed

lemma round64_lower:
  assumes x: "2 powi k \<le> x" and k: "- 1022 \<le> k"
  shows "round64 x = PInf \<or> (\<exists>y. round64 x = Fin y \<and> 2 powi k \<le> y)"
proof -
  have xpos: "0 < x" using x zero_less_power_int[of "2::real" k] by linarith
  then have x0: "x \<noteq> 0" by simp
  let ?E = "expo x"
  let ?q = "2 powi (?E - 52) :: real"
  let ?m = "rne (x / ?q)"
  have "(2::real) powi k < 2 powi (e0 x + 1)" using e0_bounds[OF x0] x xpos by simp
  then have ke: "k \<le> e0 x" by (simp add: powi_less_iff)
  then have E: "?E = e0 x" using k by (simp add: expo_e0)
  have "(2::real) powi 52 = 2 powi ?E / ?q" by (simp only: powi_diff) simp
  also have "\<dots> \<le> x / ?q" using e0_bounds[OF x0] xpos E by (intro divide_right_mono) auto
  finally have "of_int (2 ^ 52) \<le> x / ?q" by simp
  then have "2 ^ 52 \<le> ?m" by (rule rne_ge)
  then have "(of_int (2 ^ 52) :: real) \<le> of_int ?m" by (simp only: of_int_le_iff)
  then have "(2::real) powi 52 \<le> of_int ?m" by simp
  then have "2 powi 52 * ?q \<le> of_int ?m * ?q" by (intro mult_right_mono) simp_all
  moreover have "2 powi 52 * ?q = 2 powi ?E" by (simp only: powi_add) simp
  moreover have "(2::real) powi k \<le> 2 powi ?E" using ke E by (simp add: powi_le_iff)
  ultimately have yb: "2 powi k \<le> of_int ?m * ?q" by linarith
  then have "0 < of_int ?m * ?q" using zero_less_power_int[of "2::real" k] by linarith
  then have "\<not> of_int ?m * ?q \<le> - overflow_threshold" using overflow_threshold_pos by linarith
  then show ?thesis using yb by (simp add: round64_def Let_def)
qed


lemma round64_not_NaN [simp]: "round64 x \<noteq> NaN"
  by (simp add: round64_def Let_def)

lemma fsub_Fin_not_NaN: "q \<noteq> NaN \<Longrightarrow> fsub q (Fin c) \<noteq> NaN"
  by (cases q) (simp_all add: fsub_def)

lemmas f64_eval =
  round64_def expo_def e0_def rne_def Let_def compute_bitlen overflow_threshold_def lit_def
  fsub_def

section \<open>Exact operations\<close>

lemma round64_1 [simp]: "round64 1 = Fin 1"
  by (simp add: f64_eval)

lemma fdiv_self: "s \<noteq> 0 \<Longrightarrow> fdiv (Fin s) (Fin s) = Fin 1"
  by simp












lemma Math_pow_cube: "Math_pow (Fin x) (Fin 3) = round64 (x * x * x)"
  by (simp add: is_int_def power3_eq_cube)







lemma floor_truthy: "truthy (lit (1 / 1000000))"
  by (simp add: truthy_def f64_eval)



section \<open>Bounds through \<open>labToRgb\<close>\<close>

lemma D65_x_value: "D65_x = Fin (8561072675653671 / 9007199254740992)"
  by (simp add: D65_x_def f64_eval)

lemma D65_z_value: "D65_z = Fin (4903654382269817 / 4503599627370496)"
  by (simp add: D65_z_def f64_eval)

lemma lit_1292_value: "lit (1292 / 100) = Fin (7273313398203351 / 562949953421312)"
  by (simp add: f64_eval)

lemma lit_0055_value: "lit (55 / 1000) = Fin (7926335344172073 / 144115188075855872)"
  by (simp add: f64_eval)

lemma lit_1055_value: "lit (1055 / 1000) = Fin (4751297606875873 / 4503599627370496)"
  by (simp add: f64_eval)

lemma lit_24_value: "lit (24 / 10) = Fin (5404319552844595 / 2251799813685248)"
  by (simp add: f64_eval)

lemma lit_00031308_value: "lit (31308 / 10000000) = Fin (7219133293246233 / 2305843009213693952)"
  by (simp add: f64_eval)

lemma lit_0008856_value: "lit (8856 / 1000000) = Fin (2552568211199559 / 288230376151711744)"
  by (simp add: f64_eval)

lemma lit_7787_value: "lit (7787 / 1000) = Fin (8767382574583513 / 1125899906842624)"
  by (simp add: f64_eval)

lemma lit_m1_value: "lit (32404542 / 10000000) = Fin (7296854163815579 / 2251799813685248)"
  by (simp add: f64_eval)

lemma lit_m2_value: "lit (15371385 / 10000000) = Fin (6922656375816843 / 4503599627370496)"
  by (simp add: f64_eval)

lemma lit_m3_value: "lit (4985314 / 10000000) = Fin (8980743309089967 / 18014398509481984)"
  by (simp add: f64_eval)

lemma lit_m4_value: "lit (9692660 / 10000000) = Fin (4365185996422891 / 4503599627370496)"
  by (simp add: f64_eval)

lemma lit_m5_value: "lit (18760108 / 10000000) = Fin (4224400769911513 / 2251799813685248)"
  by (simp add: f64_eval)

lemma lit_m6_value: "lit (415560 / 10000000) = Fin (5988850755680267 / 144115188075855872)"
  by (simp add: f64_eval)

lemma lit_m7_value: "lit (556434 / 10000000) = Fin (8019059056180079 / 144115188075855872)"
  by (simp add: f64_eval)

lemma lit_m8_value: "lit (2040259 / 10000000) = Fin (7350807737711441 / 36028797018963968)"
  by (simp add: f64_eval)

lemma lit_m9_value: "lit (10572252 / 10000000) = Fin (2380659508383349 / 2251799813685248)"
  by (simp add: f64_eval)

lemma c16_value: "fdiv (Fin 16) (Fin 116) = Fin (2484744621997515 / 18014398509481984)"
  by (simp add: f64_eval)

lemma exponent_value: "fdiv (Fin 1) (Fin (5404319552844595 / 2251799813685248)) = Fin (7505999378950827 / 18014398509481984)"
  by (simp add: f64_eval)

lemmas labToRgb_literals =
  D65_x_value D65_z_value lit_1292_value lit_0055_value lit_1055_value lit_24_value lit_00031308_value lit_0008856_value lit_7787_value
  lit_m1_value lit_m2_value lit_m3_value lit_m4_value lit_m5_value lit_m6_value lit_m7_value lit_m8_value lit_m9_value c16_value exponent_value

lemma bnd_Fin [simp]: "bnd k (Fin y) = (\<bar>y\<bar> \<le> 2 powi k)"
  by (simp add: bnd_def)

lemma bndE:
  assumes "bnd k v"
  obtains y where "v = Fin y" "\<bar>y\<bar> \<le> 2 powi k"
  using assms by (cases v) (simp_all add: bnd_def)

lemma bnd_round64: "\<bar>x\<bar> \<le> 2 powi k \<Longrightarrow> - 1022 \<le> k \<Longrightarrow> k \<le> 1023 \<Longrightarrow> bnd k (round64 x)"
  using round64_bound[of x k] by auto

lemma bnd_mono:
  assumes "bnd j v" "j \<le> k"
  shows "bnd k v"
proof -
  obtain y where y: "v = Fin y" "\<bar>y\<bar> \<le> 2 powi j" using assms(1) by (rule bndE)
  have "(2::real) powi j \<le> 2 powi k" using assms(2) by (simp add: powi_le_iff)
  then show ?thesis using y by simp
qed

lemma bnd_fneg: "bnd j a \<Longrightarrow> bnd j (fneg a)"
  by (cases a) (simp_all add: bnd_def)

lemma bnd_fadd:
  assumes "bnd j a" "bnd j b" "- 1023 \<le> j" "j \<le> 1022"
  shows "bnd (j + 1) (fadd a b)"
proof -
  obtain x where x: "a = Fin x" "\<bar>x\<bar> \<le> 2 powi j" using assms(1) by (rule bndE)
  obtain y where y: "b = Fin y" "\<bar>y\<bar> \<le> 2 powi j" using assms(2) by (rule bndE)
  have "\<bar>x + y\<bar> \<le> 2 powi j + 2 powi j" using x(2) y(2) by linarith
  also have "\<dots> = 2 powi (j + 1)" by (simp add: power_int_add)
  finally have "bnd (j + 1) (round64 (x + y))" using assms(3,4) by (intro bnd_round64) simp_all
  then show ?thesis by (simp add: x y)
qed

lemma bnd_fsub: "bnd j a \<Longrightarrow> bnd j b \<Longrightarrow> - 1023 \<le> j \<Longrightarrow> j \<le> 1022 \<Longrightarrow> bnd (j + 1) (fsub a b)"
  by (simp add: fsub_def bnd_fadd bnd_fneg)

lemma bnd_fmul:
  assumes "bnd j a" "bnd k b" "- 1022 \<le> j + k" "j + k \<le> 1023"
  shows "bnd (j + k) (fmul a b)"
proof -
  obtain x where x: "a = Fin x" "\<bar>x\<bar> \<le> 2 powi j" using assms(1) by (rule bndE)
  obtain y where y: "b = Fin y" "\<bar>y\<bar> \<le> 2 powi k" using assms(2) by (rule bndE)
  have "\<bar>x * y\<bar> = \<bar>x\<bar> * \<bar>y\<bar>" by (rule abs_mult)
  also have "\<dots> \<le> 2 powi j * 2 powi k" using x(2) y(2) by (intro mult_mono) simp_all
  also have "\<dots> = 2 powi (j + k)" by (rule powi_add)
  finally have "bnd (j + k) (round64 (x * y))" using assms(3,4) by (intro bnd_round64) simp_all
  then show ?thesis by (simp add: x y)
qed

lemma bnd_fdiv:
  assumes "bnd j a" "2 powi m \<le> \<bar>d\<bar>" "- 1022 \<le> j - m" "j - m \<le> 1023"
  shows "bnd (j - m) (fdiv a (Fin d))"
proof -
  obtain x where x: "a = Fin x" "\<bar>x\<bar> \<le> 2 powi j" using assms(1) by (rule bndE)
  have "0 < (2::real) powi m" by simp
  then have "0 < \<bar>d\<bar>" using assms(2) by linarith
  then have d0: "d \<noteq> 0" by simp
  have "\<bar>x / d\<bar> = \<bar>x\<bar> / \<bar>d\<bar>" by simp
  also have "\<dots> \<le> 2 powi j / 2 powi m" using x(2) assms(2) by (intro frac_le) simp_all
  also have "\<dots> = 2 powi (j - m)" by (rule powi_diff)
  finally have "bnd (j - m) (round64 (x / d))" using assms(3,4) by (intro bnd_round64) simp_all
  then show ?thesis using d0 by (simp add: x)
qed

lemma bnd_cube:
  assumes "bnd j a" "- 1022 \<le> 3 * j" "3 * j \<le> 1023"
  shows "bnd (3 * j) (Math_pow a (Fin 3))"
proof -
  obtain x where x: "a = Fin x" "\<bar>x\<bar> \<le> 2 powi j" using assms(1) by (rule bndE)
  have "\<bar>x * x * x\<bar> = \<bar>x\<bar> * \<bar>x\<bar> * \<bar>x\<bar>" by (simp add: abs_mult)
  also have "\<dots> \<le> 2 powi j * 2 powi j * 2 powi j" using x(2) by (intro mult_mono) simp_all
  also have "\<dots> = 2 powi (3 * j)" by (simp add: powi_add)
  finally have "bnd (3 * j) (round64 (x * x * x))" using assms(2,3) by (intro bnd_round64) simp_all
  then show ?thesis unfolding x(1) Math_pow_cube .
qed

lemma bnd_labPivotInv:
  assumes "bnd 329 v"
  shows "bnd 987 (labPivotInv v)"
proof -
  have cube: "bnd 987 (Math_pow v (Fin 3))" using bnd_cube[OF assms] by simp
  have c: "bnd 329 (fdiv (Fin 16) (Fin 116))" unfolding c16_value by simp
  have s: "bnd 330 (fsub v (fdiv (Fin 16) (Fin 116)))" using bnd_fsub[OF assms c] by simp
  have "bnd (330 - 2) (fdiv (fsub v (fdiv (Fin 16) (Fin 116))) (lit (7787 / 1000)))"
    unfolding lit_7787_value by (rule bnd_fdiv[OF s]) simp_all
  then have lin: "bnd 987 (fdiv (fsub v (fdiv (Fin 16) (Fin 116))) (lit (7787 / 1000)))"
    by (rule bnd_mono) simp
  show ?thesis unfolding labPivotInv_def Let_def using cube lin by simp
qed

lemma bnd_row:
  assumes "bnd 988 x" "bnd 988 y" "bnd 988 z" "bnd 2 c1" "bnd 2 c2" "bnd 2 c3"
  shows "bnd 992 (fadd (fadd (fmul x c1) (fmul y c2)) (fmul z c3))"
proof -
  have p1: "bnd 990 (fmul x c1)" using bnd_fmul[OF assms(1) assms(4)] by simp
  have p2: "bnd 990 (fmul y c2)" using bnd_fmul[OF assms(2) assms(5)] by simp
  have p3: "bnd 990 (fmul z c3)" using bnd_fmul[OF assms(3) assms(6)] by simp
  have s1: "bnd 991 (fadd (fmul x c1) (fmul y c2))" using bnd_fadd[OF p1 p2] by simp
  have p3': "bnd 991 (fmul z c3)" using p3 by (rule bnd_mono) simp
  show ?thesis using bnd_fadd[OF s1 p3'] by simp
qed

lemma fmul_Fin_left_not_NaN: "c \<noteq> 0 \<Longrightarrow> p \<noteq> NaN \<Longrightarrow> fmul (Fin c) p \<noteq> NaN"
  by (cases p) auto

lemma fmul_Fin_right_not_NaN: "c \<noteq> 0 \<Longrightarrow> p \<noteq> NaN \<Longrightarrow> fmul p (Fin c) \<noteq> NaN"
  by (cases p) auto

lemma linearToSrgb_not_NaN: "linearToSrgb (Fin y) \<noteq> NaN"
proof (cases "fle (Fin y) (lit (31308 / 10000000))")
  case True
  then show ?thesis unfolding linearToSrgb_def lit_1292_value by simp
next
  case False
  then have y: "0 < y" unfolding lit_00031308_value by simp
  have p: "Math_pow (Fin y) (fdiv (Fin 1) (lit (24 / 10))) \<noteq> NaN"
    unfolding lit_24_value exponent_value using y by (simp add: is_int_def)
  have "fmul (lit (1055 / 1000)) (Math_pow (Fin y) (fdiv (Fin 1) (lit (24 / 10)))) \<noteq> NaN"
    unfolding lit_1055_value using p by (intro fmul_Fin_left_not_NaN) simp_all
  then have "fsub (fmul (lit (1055 / 1000)) (Math_pow (Fin y) (fdiv (Fin 1) (lit (24 / 10)))))
               (lit (55 / 1000)) \<noteq> NaN"
    unfolding lit_0055_value by (rule fsub_Fin_not_NaN)
  then show ?thesis using False by (simp add: linearToSrgb_def)
qed

lemma channel_range:
  assumes "u \<noteq> NaN"
  shows "\<exists>n. clamp (Math_round u) (Fin 0) (Fin 255) = Fin (of_int n) \<and> 0 \<le> n \<and> n \<le> 255"
proof (cases u)
  case NaN
  then show ?thesis using assms by simp
next
  case PInf
  then have "clamp (Math_round u) (Fin 0) (Fin 255) = Fin (of_int 255)"
    by (simp add: clamp_def Math_max_def Math_min_def)
  then show ?thesis by (intro exI[of _ 255]) simp
next
  case NInf
  then have "clamp (Math_round u) (Fin 0) (Fin 255) = Fin (of_int 0)"
    by (simp add: clamp_def Math_max_def Math_min_def)
  then show ?thesis by (intro exI[of _ 0]) simp
next
  case (Fin x)
  define m where "m = \<lfloor>x + 1 / 2\<rfloor>"
  have r: "Math_round u = Fin (of_int m)" by (simp add: Fin m_def)
  consider "m < 0" | "0 \<le> m" "m \<le> 255" | "255 < m" by linarith
  then show ?thesis
  proof cases
    case 1
    then have "clamp (Math_round u) (Fin 0) (Fin 255) = Fin (of_int 0)"
      unfolding r by (simp add: clamp_def Math_max_def Math_min_def)
    then show ?thesis by (intro exI[of _ 0]) simp
  next
    case 2
    then have "clamp (Math_round u) (Fin 0) (Fin 255) = Fin (of_int m)"
      unfolding r by (simp add: clamp_def Math_max_def Math_min_def)
    then show ?thesis using 2 by (intro exI[of _ m]) simp
  next
    case 3
    then have "clamp (Math_round u) (Fin 0) (Fin 255) = Fin (of_int 255)"
      unfolding r by (simp add: clamp_def Math_max_def Math_min_def)
    then show ?thesis by (intro exI[of _ 255]) simp
  qed
qed

lemma channel_of_bounded:
  assumes "bnd 992 v"
  shows "\<exists>n. clamp (Math_round (fmul (linearToSrgb v) (Fin 255))) (Fin 0) (Fin 255) = Fin (of_int n)
           \<and> 0 \<le> n \<and> n \<le> 255"
proof -
  obtain y where y: "v = Fin y" using assms by (rule bndE)
  have "fmul (linearToSrgb v) (Fin 255) \<noteq> NaN"
    unfolding y using linearToSrgb_not_NaN[of y] by (intro fmul_Fin_right_not_NaN) simp_all
  then show ?thesis by (rule channel_range)
qed

lemma round64_overflow:
  assumes "2 powi 1024 \<le> x"
  shows "round64 x = PInf"
proof -
  have "round64 x = PInf \<or> (\<exists>y. round64 x = Fin y \<and> 2 powi 1024 \<le> y)"
    using assms by (intro round64_lower) simp_all
  moreover have False if "round64 x = Fin y" "2 powi 1024 \<le> y" for y
  proof -
    have "\<bar>y\<bar> < overflow_threshold" using round64_cases[OF that(1)] by blast
    then have "\<bar>y\<bar> < 2 powi 1024" by (simp only: overflow_threshold_powi)
    then show False using that(2) by linarith
  qed
  ultimately show ?thesis by blast
qed

lemma huge_round64: "2 powi 1016 \<le> x \<Longrightarrow> huge (round64 x)"
  using round64_lower[of 1016 x] by (auto simp: huge_def)

lemma huge_fy: "huge (fdiv (fadd (Fin (2 ^ 1023)) (Fin 16)) (Fin 116))"
proof -
  have "(2::real) powi 1023 \<le> 2 ^ 1023 + 16" by (simp only: power_int_numeral)
  then consider "round64 (2 ^ 1023 + 16) = PInf"
    | y where "round64 (2 ^ 1023 + 16) = Fin y" "2 powi 1023 \<le> y"
    using round64_lower[of 1023 "2 ^ 1023 + 16"] by auto
  then show ?thesis
  proof cases
    case 1
    then show ?thesis by (simp add: huge_def)
  next
    case 2
    have "(2::real) powi 1016 = 2 powi 1023 / 2 powi 7" by (simp only: powi_diff) simp
    also have "\<dots> \<le> y / 2 powi 7" using 2(2) by (intro divide_right_mono) simp_all
    also have "\<dots> \<le> y / 116"
    proof -
      have "0 \<le> y" using 2(2) zero_less_power_int[of "2::real" 1023] by linarith
      then show ?thesis by (intro divide_left_mono) simp_all
    qed
    finally have "huge (round64 (y / 116))" by (rule huge_round64)
    then show ?thesis unfolding fadd.simps 2(1) by simp
  qed
qed

lemma huge_fadd_zero: "huge v \<Longrightarrow> huge (fadd (Fin 0) v)"
  by (cases v) (simp_all add: huge_def huge_round64[unfolded huge_def])

lemma huge_fsub_zero: "huge v \<Longrightarrow> huge (fsub v (Fin 0))"
  by (cases v) (simp_all add: fsub_def huge_def huge_round64[unfolded huge_def])

lemma labPivotInv_huge:
  assumes "huge v"
  shows "labPivotInv v = PInf"
proof -
  have cube: "Math_pow v (Fin 3) = PInf"
  proof (cases v)
    case (Fin y)
    then have y: "2 powi 1016 \<le> y" using assms by (simp add: huge_def)
    have y0: "0 \<le> y" using y zero_less_power_int[of "2::real" 1016] by linarith
    have "(2::real) powi 1024 \<le> 2 powi 1016 * 2 powi 1016 * 2 powi 1016"
      by (simp only: powi_add powi_le_iff)
    also have "\<dots> \<le> y * y * y" using y y0 by (intro mult_mono) simp_all
    finally show ?thesis unfolding Fin Math_pow_cube by (rule round64_overflow)
  qed (use assms in \<open>simp_all add: huge_def\<close>)
  show ?thesis unfolding labPivotInv_def Let_def cube lit_0008856_value by (simp add: fgt_def)
qed

section \<open>Facts about the pixel loop\<close>













section \<open>Evaluated pixels\<close>




















































































































































































































































































































section \<open>Statistics of an empty buffer\<close>

text \<open>
  C1, as stated in the specification: for a zero-pixel buffer \<open>computeLabStats\<close> fails
  with \<open>EmptyInput\<close> and returns no record with NaN in it. The source has no such
  check: the loop body never runs, every sum and the count stay 0, and \<open>0 / 0\<close> is NaN.
  The operation returns a record whose means are NaN, at the default \<open>sampleStep\<close> 4:
\<close>

theorem computeLabStats_empty_returns_NaN:
  "computeLabStats [] 4 =
     Inr \<lparr>mean = \<lparr>lab_L = NaN, lab_a = NaN, lab_b = NaN\<rparr>,
          std = \<lparr>lab_L = lit (1 / 1000000), lab_a = lit (1 / 1000000),
                 lab_b = lit (1 / 1000000)\<rparr>\<rparr>"
  by (simp add: computeLabStats_def sample.simps sums0_def Let_def Math_max_def fsub_def
      orElse_def truthy_def)

text \<open>
  C1, amended: for a zero-pixel buffer and every \<open>sampleStep\<close>, \<open>computeLabStats\<close>
  does not fail; it returns the record whose three means are NaN and whose three
  standard deviations are the floor \<open>1e-6\<close> (the square root of NaN is NaN, which is
  falsy, so the floor replaces it).
\<close>

theorem computeLabStats_empty:
  "computeLabStats [] sampleStep =
     Inr \<lparr>mean = \<lparr>lab_L = NaN, lab_a = NaN, lab_b = NaN\<rparr>,
          std = \<lparr>lab_L = lit (1 / 1000000), lab_a = lit (1 / 1000000),
                 lab_b = lit (1 / 1000000)\<rparr>\<rparr>"
  by (simp add: computeLabStats_def sample.simps sums0_def Let_def Math_max_def fsub_def
      orElse_def truthy_def)

section \<open>The zero shift\<close>

text \<open>
  C4: \<open>applyLabShift\<close> with an absent shift record, or with a shift record whose three
  components are 0, returns the buffer as it received it, for every buffer and every
  strength.
\<close>

theorem applyLabShift_zero_noop:
  "applyLabShift data None strength = Inr data \<and>
   applyLabShift data
     (Some \<lparr>shift_L = Some (Fin 0), shift_a = Some (Fin 0), shift_b = Some (Fin 0)\<rparr>)
     strength = Inr data"
  by (simp add: applyLabShift_def nullish_def)

section \<open>The recovery shift\<close>

text \<open>
  C6: the recovery shift has \<open>\<Delta>L = target.L - mean.L\<close> when auto exposure is on and
  0 otherwise, and \<open>(\<Delta>a, \<Delta>b) = (target.a - mean.a, target.b - mean.b)\<close> when auto
  white balance is on and \<open>(0, 0)\<close> otherwise, each toggle acting alone. With auto
  exposure on, auto white balance off, measured mean \<open>(60, 5, -2)\<close> and target
  \<open>(50, 0, 0)\<close> the shift is \<open>(-10, 0, 0)\<close>.
\<close>

theorem computeRecoveryShift_spec:
  "computeRecoveryShift autoExposure autoWB target st =
     \<lparr>lab_L = (if autoExposure then fsub (lab_L target) (lab_L (mean st)) else Fin 0),
      lab_a = (if autoWB then fsub (lab_a target) (lab_a (mean st)) else Fin 0),
      lab_b = (if autoWB then fsub (lab_b target) (lab_b (mean st)) else Fin 0)\<rparr> \<and>
   computeRecoveryShift True False \<lparr>lab_L = Fin 50, lab_a = Fin 0, lab_b = Fin 0\<rparr>
     \<lparr>mean = \<lparr>lab_L = Fin 60, lab_a = Fin 5, lab_b = Fin (- 2)\<rparr>, std = sd\<rparr> =
     \<lparr>lab_L = Fin (- 10), lab_a = Fin 0, lab_b = Fin 0\<rparr>"
  by (simp add: computeRecoveryShift_def f64_eval)

section \<open>The confidence score\<close>

lemma clamp_0_100_range:
  "v \<noteq> NaN \<Longrightarrow> fle (Fin 0) (Math_max (Fin 0) (Math_min (Fin 100) v)) \<and>
     fle (Math_max (Fin 0) (Math_min (Fin 100) v)) (Fin 100)"
  by (cases v) (auto simp: Math_max_def Math_min_def)

lemma max_min_clamp:
  "Math_max (Fin 0) (Math_min (Fin 100) v) = clamp v (Fin 0) (Fin 100)"
  by (cases v) (auto simp: Math_max_def Math_min_def clamp_def)

text \<open>
  C7: the score is the supplied quality score when there is one, otherwise 55 when
  recovery is available and enabled, 35 when it is available and disabled, and 40
  otherwise; less 15 at risk \<open>high\<close>, less 7 at risk \<open>medium\<close>, unchanged at any
  other risk; clamped to \<open>[0, 100]\<close>. The label is High from 70 on, Mid from 50 on,
  Low below. The clamped score lies in \<open>[0, 100]\<close> unless the supplied quality score is
  NaN.
\<close>

theorem confidence_spec:
  "score (confidence qualityScore available enabled chartRisk environmentRisk) =
     clamp
       (let base = (case qualityScore of
                      Some q \<Rightarrow> q
                    | None \<Rightarrow> if available then (if enabled then Fin 55 else Fin 35)
                              else Fin 40);
            risk = orString chartRisk environmentRisk
        in if risk = Some ''high'' then fsub base (Fin 15)
           else if risk = Some ''medium'' then fsub base (Fin 7)
           else base)
       (Fin 0) (Fin 100) \<and>
   label (confidence qualityScore available enabled chartRisk environmentRisk) =
     (if fge (score (confidence qualityScore available enabled chartRisk environmentRisk))
           (Fin 70) then High
      else if fge (score (confidence qualityScore available enabled chartRisk environmentRisk))
                (Fin 50) then Mid
      else Low) \<and>
   (qualityScore \<noteq> Some NaN \<longrightarrow>
      fle (Fin 0) (score (confidence qualityScore available enabled chartRisk environmentRisk)) \<and>
      fle (score (confidence qualityScore available enabled chartRisk environmentRisk)) (Fin 100))"
proof (intro conjI impI)
  show "score (confidence qualityScore available enabled chartRisk environmentRisk) =
     clamp
       (let base = (case qualityScore of
                      Some q \<Rightarrow> q
                    | None \<Rightarrow> if available then (if enabled then Fin 55 else Fin 35)
                              else Fin 40);
            risk = orString chartRisk environmentRisk
        in if risk = Some ''high'' then fsub base (Fin 15)
           else if risk = Some ''medium'' then fsub base (Fin 7)
           else base)
       (Fin 0) (Fin 100)"
    by (simp add: confidence_def Let_def max_min_clamp)
  show "label (confidence qualityScore available enabled chartRisk environmentRisk) =
     (if fge (score (confidence qualityScore available enabled chartRisk environmentRisk))
           (Fin 70) then High
      else if fge (score (confidence qualityScore available enabled chartRisk environmentRisk))
                (Fin 50) then Mid
      else Low)"
    by (simp add: confidence_def Let_def)
next
  assume q: "qualityScore \<noteq> Some NaN"
  let ?base = "case qualityScore of
                 Some q \<Rightarrow> q
               | None \<Rightarrow> if available then (if enabled then Fin 55 else Fin 35) else Fin 40"
  let ?risk = "orString chartRisk environmentRisk"
  let ?pen = "if ?risk = Some ''high'' then fsub ?base (Fin 15)
              else if ?risk = Some ''medium'' then fsub ?base (Fin 7) else ?base"
  have b: "?base \<noteq> NaN" using q by (cases qualityScore) auto
  have p: "?pen \<noteq> NaN" using b fsub_Fin_not_NaN[OF b] by auto
  have s: "score (confidence qualityScore available enabled chartRisk environmentRisk) =
             Math_max (Fin 0) (Math_min (Fin 100) ?pen)"
    by (simp add: confidence_def Let_def)
  show "fle (Fin 0) (score (confidence qualityScore available enabled chartRisk environmentRisk))"
    and "fle (score (confidence qualityScore available enabled chartRisk environmentRisk)) (Fin 100)"
    unfolding s using clamp_0_100_range[OF p] by blast+
qed

lemma sub_100_15: "fsub (Fin 100) (Fin 15) = Fin 85"
  by (simp add: f64_eval)

lemma conf_val:
  "confidence (Some (Fin 100)) True True (Some ''high'') None = \<lparr>score = Fin 85, label = High\<rparr>"
  by (simp add: confidence_def orString_def Math_max_def Math_min_def fge_def sub_100_15)

theorem confidence_spec_witness:
  "Some (Fin 100) \<noteq> Some NaN \<and>
   confidence (Some (Fin 100)) True True (Some ''high'') None = \<lparr>score = Fin 85, label = High\<rparr> \<and>
   fle (Fin 0) (score (confidence (Some (Fin 100)) True True (Some ''high'') None)) \<and>
   fle (score (confidence (Some (Fin 100)) True True (Some ''high'') None)) (Fin 100)"
proof -
  have h: "Some (Fin 100) \<noteq> Some NaN" by simp
  have r: "fle (Fin 0) (score (confidence (Some (Fin 100)) True True (Some ''high'') None)) \<and>
           fle (score (confidence (Some (Fin 100)) True True (Some ''high'') None)) (Fin 100)"
    using confidence_spec[of "Some (Fin 100)" True True "Some ''high''" None] h by blast
  show ?thesis using h r conf_val by simp
qed
section \<open>The transfer of one pixel\<close>







section \<open>Transfer between equal statistics\<close>





section \<open>Invalid configurations\<close>





section \<open>Statistics of a uniform buffer\<close>




section \<open>The range of \<open>labToRgb\<close>\<close>

text \<open>
  C10, as stated: for every finite Lab input the three channels of \<open>labToRgb\<close> are
  integers in \<open>[0, 255]\<close>, never NaN. For \<open>L = 2 ^ 1023\<close> the cubes of the pivot
  overflow to infinity, the matrix rows add infinities of both signs, and the three
  channels are NaN:
\<close>

theorem labToRgb_overflow_NaN:
  "labToRgb (Fin (2 ^ 1023)) (Fin 0) (Fin 0) = \<lparr>rgb_r = NaN, rgb_g = NaN, rgb_b = NaN\<rparr>"
proof -
  let ?fy = "fdiv (fadd (Fin (2 ^ 1023)) (Fin 16)) (Fin 116)"
  have z: "fdiv (Fin 0) (Fin 500) = Fin 0" "fdiv (Fin 0) (Fin 200) = Fin 0" by simp_all
  have p: "labPivotInv ?fy = PInf" "labPivotInv (fadd (Fin 0) ?fy) = PInf"
    "labPivotInv (fsub ?fy (Fin 0)) = PInf"
    using huge_fy by (simp_all only: labPivotInv_huge huge_fadd_zero huge_fsub_zero)
  show ?thesis
    unfolding labToRgb_def Let_def z p linearToSrgb_def D65_y_def labToRgb_literals
    by (simp add: clamp_def Math_max_def Math_min_def fsub_def)
qed

text \<open>
  C10, amended: for every finite Lab input whose three components have magnitude at
  most \<open>1e100\<close>, the three channels of \<open>labToRgb\<close> are integers in \<open>[0, 255]\<close>.
\<close>

theorem labToRgb_channels_in_range:
  assumes "\<bar>l\<bar> \<le> 10 ^ 100" "\<bar>a\<bar> \<le> 10 ^ 100" "\<bar>b\<bar> \<le> 10 ^ 100"
  shows "\<exists>r g b'. labToRgb (Fin l) (Fin a) (Fin b) =
            \<lparr>rgb_r = Fin (of_int r), rgb_g = Fin (of_int g), rgb_b = Fin (of_int b')\<rparr> \<and>
          0 \<le> r \<and> r \<le> 255 \<and> 0 \<le> g \<and> g \<le> 255 \<and> 0 \<le> b' \<and> b' \<le> 255"
proof -
  have B: "(10::real) ^ 100 \<le> 2 powi 333" by simp
  have bl: "bnd 333 (Fin l)" and ba: "bnd 333 (Fin a)" and bb: "bnd 333 (Fin b)"
    using assms B by simp_all
  define fy where "fy = fdiv (fadd (Fin l) (Fin 16)) (Fin 116)"
  define fx where "fx = fadd (fdiv (Fin a) (Fin 500)) fy"
  define fz where "fz = fsub fy (fdiv (Fin b) (Fin 200))"
  define x where "x = fmul (labPivotInv fx) D65_x"
  define y where "y = fmul (labPivotInv fy) D65_y"
  define z where "z = fmul (labPivotInv fz) D65_z"
  define r where "r = fadd (fadd (fmul x (lit (32404542 / 10000000)))
                         (fmul y (fneg (lit (15371385 / 10000000)))))
                   (fmul z (fneg (lit (4985314 / 10000000))))"
  define g where "g = fadd (fadd (fmul x (fneg (lit (9692660 / 10000000))))
                         (fmul y (lit (18760108 / 10000000))))
                   (fmul z (lit (415560 / 10000000)))"
  define bv where "bv = fadd (fadd (fmul x (lit (556434 / 10000000)))
                            (fmul y (fneg (lit (2040259 / 10000000)))))
                      (fmul z (lit (10572252 / 10000000)))"
  have eq: "labToRgb (Fin l) (Fin a) (Fin b) =
      \<lparr>rgb_r = clamp (Math_round (fmul (linearToSrgb r) (Fin 255))) (Fin 0) (Fin 255),
       rgb_g = clamp (Math_round (fmul (linearToSrgb g) (Fin 255))) (Fin 0) (Fin 255),
       rgb_b = clamp (Math_round (fmul (linearToSrgb bv) (Fin 255))) (Fin 0) (Fin 255)\<rparr>"
    unfolding labToRgb_def Let_def r_def g_def bv_def x_def y_def z_def fx_def fy_def fz_def
    by (rule refl)
  have b16: "bnd 333 (Fin 16)" by simp
  have s1: "bnd 334 (fadd (Fin l) (Fin 16))" using bnd_fadd[OF bl b16] by simp
  have "bnd (334 - 6) fy" unfolding fy_def by (rule bnd_fdiv[OF s1]) simp_all
  then have fy328: "bnd 328 fy" by simp
  have "bnd (333 - 8) (fdiv (Fin a) (Fin 500))" by (rule bnd_fdiv[OF ba]) simp_all
  then have a5: "bnd 328 (fdiv (Fin a) (Fin 500))" by (rule bnd_mono) simp
  have "bnd (333 - 7) (fdiv (Fin b) (Fin 200))" by (rule bnd_fdiv[OF bb]) simp_all
  then have b2: "bnd 328 (fdiv (Fin b) (Fin 200))" by (rule bnd_mono) simp
  have fx: "bnd 329 fx" unfolding fx_def using bnd_fadd[OF a5 fy328] by simp
  have fz: "bnd 329 fz" unfolding fz_def using bnd_fsub[OF fy328 b2] by simp
  have fy: "bnd 329 fy" using fy328 by (rule bnd_mono) simp
  have dx: "bnd 0 D65_x" unfolding D65_x_value by simp
  have dy: "bnd 0 D65_y" unfolding D65_y_def by simp
  have dz: "bnd 1 D65_z" unfolding D65_z_value by simp
  have "bnd 987 x" unfolding x_def using bnd_fmul[OF bnd_labPivotInv[OF fx] dx] by simp
  then have x: "bnd 988 x" by (rule bnd_mono) simp
  have "bnd 987 y" unfolding y_def using bnd_fmul[OF bnd_labPivotInv[OF fy] dy] by simp
  then have y: "bnd 988 y" by (rule bnd_mono) simp
  have z: "bnd 988 z" unfolding z_def using bnd_fmul[OF bnd_labPivotInv[OF fz] dz] by simp
  have c: "bnd 2 (lit (32404542 / 10000000))" "bnd 2 (fneg (lit (15371385 / 10000000)))"
    "bnd 2 (fneg (lit (4985314 / 10000000)))" "bnd 2 (fneg (lit (9692660 / 10000000)))"
    "bnd 2 (lit (18760108 / 10000000))" "bnd 2 (lit (415560 / 10000000))"
    "bnd 2 (lit (556434 / 10000000))" "bnd 2 (fneg (lit (2040259 / 10000000)))"
    "bnd 2 (lit (10572252 / 10000000))"
    unfolding labToRgb_literals by simp_all
  have r: "bnd 992 r" unfolding r_def by (rule bnd_row[OF x y z c(1) c(2) c(3)])
  have g: "bnd 992 g" unfolding g_def by (rule bnd_row[OF x y z c(4) c(5) c(6)])
  have bv: "bnd 992 bv" unfolding bv_def by (rule bnd_row[OF x y z c(7) c(8) c(9)])
  obtain nr where nr: "clamp (Math_round (fmul (linearToSrgb r) (Fin 255))) (Fin 0) (Fin 255) =
      Fin (of_int nr)" "0 \<le> nr" "nr \<le> 255"
    using channel_of_bounded[OF r] by blast
  obtain ng where ng: "clamp (Math_round (fmul (linearToSrgb g) (Fin 255))) (Fin 0) (Fin 255) =
      Fin (of_int ng)" "0 \<le> ng" "ng \<le> 255"
    using channel_of_bounded[OF g] by blast
  obtain nb where nb: "clamp (Math_round (fmul (linearToSrgb bv) (Fin 255))) (Fin 0) (Fin 255) =
      Fin (of_int nb)" "0 \<le> nb" "nb \<le> 255"
    using channel_of_bounded[OF bv] by blast
  show ?thesis unfolding eq nr(1) ng(1) nb(1) using nr(2,3) ng(2,3) nb(2,3) by blast
qed

theorem labToRgb_channels_in_range_witness:
  "\<bar>0 :: real\<bar> \<le> 10 ^ 100 \<and>
   (\<exists>r g b'. labToRgb (Fin 0) (Fin 0) (Fin 0) =
            \<lparr>rgb_r = Fin (of_int r), rgb_g = Fin (of_int g), rgb_b = Fin (of_int b')\<rparr> \<and>
          0 \<le> r \<and> r \<le> 255 \<and> 0 \<le> g \<and> g \<le> 255 \<and> 0 \<le> b' \<and> b' \<le> 255)"
proof -
  have h: "\<bar>0 :: real\<bar> \<le> 10 ^ 100" by simp
  show ?thesis using labToRgb_channels_in_range[OF h h h] h by blast
qed


end
